theory Spec2Isabelle
  imports Main "HOL-Library.Log_Nat"
begin

section \<open>Strings of the host language\<close>

text \<open>
  The grader of \<^verbatim>\<open>src/components/CodeRunner.tsx\<close> works on ECMAScript strings. A
  \<^typ>\<open>string\<close> of this theory is read as a sequence of code units below 256 (the
  Latin-1 range), each \<^typ>\<open>char\<close> being the code unit of that number. The range is
  closed under \<^verbatim>\<open>trim\<close>, \<^verbatim>\<open>toLowerCase\<close>, \<^verbatim>\<open>split\<close> and the numeric
  conversion, so every definition below is the ECMAScript operation restricted to it.
\<close>

definition is_space :: "char \<Rightarrow> bool" where
  \<comment> \<open>WhiteSpace and LineTerminator below 256: TAB, LF, VT, FF, CR, SP, NBSP. This is
      the class of \<^verbatim>\<open>\s\<close>, of \<^verbatim>\<open>String.prototype.trim\<close> and of StrWhiteSpaceChar.\<close>
  "is_space c = (c \<in> set [CHR 0x09, CHR 0x0A, CHR 0x0B, CHR 0x0C, CHR 0x0D, CHR 0x20, CHR 0xA0])"

definition js_trim :: "string \<Rightarrow> string" where
  "js_trim s = rev (dropWhile is_space (rev (dropWhile is_space s)))"

definition lower_char :: "char \<Rightarrow> char" where
  \<comment> \<open>A-Z, and the Latin-1 capitals U+00C0..U+00DE without the multiplication sign.\<close>
  "lower_char c =
     (let n = (of_char c :: nat)
      in if (65 \<le> n \<and> n \<le> 90) \<or> (192 \<le> n \<and> n \<le> 222 \<and> n \<noteq> 215)
         then char_of (n + 32) else c)"

definition js_toLowerCase :: "string \<Rightarrow> string" where
  "js_toLowerCase s = map lower_char s"

section \<open>Numbers of the host language\<close>

text \<open>
  A Number is an IEEE 754 binary64 value. Finite values carry their exact rational
  value; the two zeros are identified, which no operation used by the grader
  (subtraction, absolute value, \<open><\<close>) can tell apart. Conversion and subtraction
  round the exact result to the nearest binary64 value, a tie going to the even
  mantissa. For a literal of more than 20 significant digits ECMAScript lets an engine
  round at the 20th digit first; the conversion below rounds the exact value, as the
  engines do.
\<close>

datatype jsnum = Fin rat | PInf | NInf | NaN

definition pow2_le :: "int \<Rightarrow> int \<Rightarrow> int \<Rightarrow> bool" where
  \<comment> \<open>\<open>2^k \<le> p / q\<close>, for \<open>q > 0\<close>\<close>
  "pow2_le k p q = (if 0 \<le> k then q * 2 ^ nat k \<le> p else q \<le> p * 2 ^ nat (- k))"

definition flog2 :: "int \<Rightarrow> int \<Rightarrow> int" where
  \<comment> \<open>\<open>\<lfloor>log\<^sub>2 (p / q)\<rfloor>\<close>, for \<open>p > 0\<close> and \<open>q > 0\<close>\<close>
  "flog2 p q =
     (let k = bitlen p - bitlen q
      in if pow2_le k p q then k else k - 1)"

definition round_half_even :: "int \<Rightarrow> int \<Rightarrow> int" where
  \<comment> \<open>the integer nearest to \<open>n / d\<close>, a tie going to the even neighbour\<close>
  "round_half_even n d =
     (let f = n div d; r = n mod d
      in if 2 * r < d then f
         else if d < 2 * r then f + 1
         else if even f then f else f + 1)"

definition round_pos :: "int \<Rightarrow> int \<Rightarrow> rat option" where
  \<comment> \<open>\<open>p / q > 0\<close> rounded to binary64: 53 significant bits, least exponent \<open>-1074\<close>;
      \<open>None\<close> when the rounded value leaves the finite range\<close>
  "round_pos p q =
     (let e = max (flog2 p q - 52) (- 1074);
          m = (if 0 \<le> e then round_half_even p (q * 2 ^ nat e)
               else round_half_even (p * 2 ^ nat (- e)) q);
          v = (if 0 \<le> e then of_int (m * 2 ^ nat e) else of_int m / of_int (2 ^ nat (- e)))
      in if 0 \<le> e \<and> 2 ^ 1024 \<le> m * 2 ^ nat e then None else Some v)"

definition round_double :: "rat \<Rightarrow> jsnum" where
  "round_double x =
     (if x = 0 then Fin 0
      else case quotient_of \<bar>x\<bar> of (n, d) \<Rightarrow>
        (case round_pos n d of
           None \<Rightarrow> if 0 < x then PInf else NInf
         | Some v \<Rightarrow> Fin (if 0 < x then v else - v)))"

definition js_neg :: "jsnum \<Rightarrow> jsnum" where
  "js_neg x = (case x of Fin a \<Rightarrow> Fin (- a) | PInf \<Rightarrow> NInf | NInf \<Rightarrow> PInf | NaN \<Rightarrow> NaN)"

definition js_sub :: "jsnum \<Rightarrow> jsnum \<Rightarrow> jsnum" where
  "js_sub x y =
     (case (x, y) of
        (NaN, _) \<Rightarrow> NaN
      | (_, NaN) \<Rightarrow> NaN
      | (Fin a, Fin b) \<Rightarrow> round_double (a - b)
      | (Fin a, PInf) \<Rightarrow> NInf
      | (Fin a, NInf) \<Rightarrow> PInf
      | (PInf, PInf) \<Rightarrow> NaN
      | (PInf, _) \<Rightarrow> PInf
      | (NInf, NInf) \<Rightarrow> NaN
      | (NInf, _) \<Rightarrow> NInf)"

definition js_abs :: "jsnum \<Rightarrow> jsnum" where
  "js_abs x = (case x of Fin a \<Rightarrow> Fin \<bar>a\<bar> | PInf \<Rightarrow> PInf | NInf \<Rightarrow> PInf | NaN \<Rightarrow> NaN)"

definition js_lt :: "jsnum \<Rightarrow> jsnum \<Rightarrow> bool" where
  "js_lt x y =
     (case (x, y) of
        (NaN, _) \<Rightarrow> False
      | (_, NaN) \<Rightarrow> False
      | (Fin a, Fin b) \<Rightarrow> a < b
      | (Fin a, PInf) \<Rightarrow> True
      | (Fin a, NInf) \<Rightarrow> False
      | (PInf, _) \<Rightarrow> False
      | (NInf, NInf) \<Rightarrow> False
      | (NInf, _) \<Rightarrow> True)"

definition isNaN :: "jsnum \<Rightarrow> bool" where
  "isNaN x = (x = NaN)"

subsection \<open>\<^verbatim>\<open>Number(string)\<close>\<close>

definition is_digit :: "char \<Rightarrow> bool" where
  "is_digit c = (c \<in> set ''0123456789'')"

definition is_hex_digit :: "char \<Rightarrow> bool" where
  "is_hex_digit c = (c \<in> set ''0123456789abcdefABCDEF'')"

definition is_octal_digit :: "char \<Rightarrow> bool" where
  "is_octal_digit c = (c \<in> set ''01234567'')"

definition is_binary_digit :: "char \<Rightarrow> bool" where
  "is_binary_digit c = (c \<in> set ''01'')"

definition digit_val :: "char \<Rightarrow> int" where
  "digit_val c =
     (let n = (of_char c :: int)
      in if 97 \<le> n then n - 87 else if 65 \<le> n then n - 55 else n - 48)"

definition digits_val :: "int \<Rightarrow> string \<Rightarrow> int" where
  "digits_val b ds = foldl (\<lambda>a c. a * b + digit_val c) 0 ds"

definition dec_to_double :: "int \<Rightarrow> int \<Rightarrow> jsnum" where
  \<comment> \<open>the Number nearest to \<open>n * 10^k\<close>\<close>
  "dec_to_double n k =
     round_double (if 0 \<le> k then of_int (n * 10 ^ nat k) else of_int n / of_int (10 ^ nat (- k)))"

definition parse_exponent :: "string \<Rightarrow> int option" where
  \<comment> \<open>ExponentPart, optional: \<open>e\<close> or \<open>E\<close>, an optional sign, at least one digit\<close>
  "parse_exponent s =
     (case s of
        [] \<Rightarrow> Some 0
      | c # r \<Rightarrow>
          if c = CHR ''e'' \<or> c = CHR ''E'' then
            (let neg = (r \<noteq> [] \<and> hd r = CHR ''-'');
                 ds = (if r \<noteq> [] \<and> (hd r = CHR ''+'' \<or> hd r = CHR ''-'') then tl r else r)
             in if ds \<noteq> [] \<and> list_all is_digit ds
                then Some (if neg then - digits_val 10 ds else digits_val 10 ds)
                else None)
          else None)"

definition parse_unsigned :: "string \<Rightarrow> jsnum" where
  \<comment> \<open>StrUnsignedDecimalLiteral\<close>
  "parse_unsigned s =
     (if s = ''Infinity'' then PInf
      else
        let ip = takeWhile is_digit s;
            r1 = dropWhile is_digit s;
            has_dot = (r1 \<noteq> [] \<and> hd r1 = CHR ''.'');
            fp = (if has_dot then takeWhile is_digit (tl r1) else []);
            r2 = (if has_dot then dropWhile is_digit (tl r1) else r1)
        in if ip = [] \<and> fp = [] then NaN
           else case parse_exponent r2 of
                  None \<Rightarrow> NaN
                | Some e \<Rightarrow> dec_to_double (digits_val 10 (ip @ fp)) (e - int (length fp)))"

definition parse_decimal :: "string \<Rightarrow> jsnum" where
  \<comment> \<open>StrDecimalLiteral: an optional sign before the unsigned literal\<close>
  "parse_decimal s =
     (case s of
        [] \<Rightarrow> NaN
      | c # r \<Rightarrow>
          if c = CHR ''+'' then parse_unsigned r
          else if c = CHR ''-'' then js_neg (parse_unsigned r)
          else parse_unsigned s)"

definition parse_non_decimal :: "string \<Rightarrow> int option" where
  \<comment> \<open>NonDecimalIntegerLiteral: \<open>0x\<close>, \<open>0o\<close>, \<open>0b\<close> (either case) and at least one digit\<close>
  "parse_non_decimal s =
     (case s of
        z # p # ds \<Rightarrow>
          if z = CHR ''0'' \<and> ds \<noteq> [] then
            (if (p = CHR ''x'' \<or> p = CHR ''X'') \<and> list_all is_hex_digit ds
               then Some (digits_val 16 ds)
             else if (p = CHR ''o'' \<or> p = CHR ''O'') \<and> list_all is_octal_digit ds
               then Some (digits_val 8 ds)
             else if (p = CHR ''b'' \<or> p = CHR ''B'') \<and> list_all is_binary_digit ds
               then Some (digits_val 2 ds)
             else None)
          else None
      | _ \<Rightarrow> None)"

definition js_Number :: "string \<Rightarrow> jsnum" where
  \<comment> \<open>StringToNumber: white space is stripped, the empty text is \<open>0\<close>, a text outside
      the grammar is \<open>NaN\<close>\<close>
  "js_Number s =
     (let t = js_trim s
      in if t = [] then Fin 0
         else case parse_non_decimal t of
                Some n \<Rightarrow> round_double (of_int n)
              | None \<Rightarrow> parse_decimal t)"

section \<open>Grading one output\<close>

definition tryParseFloat :: "string \<Rightarrow> jsnum option" where
  "tryParseFloat s = (let n = js_Number s in if isNaN n then None else Some n)"

definition lit_1e_2 :: jsnum where
  \<comment> \<open>the literal \<^verbatim>\<open>1e-2\<close>\<close>
  "lit_1e_2 = dec_to_double 1 (- 2)"

definition normalized :: "string \<Rightarrow> string" where
  \<comment> \<open>\<^verbatim>\<open>s.trim().toLowerCase()\<close>\<close>
  "normalized s = js_toLowerCase (js_trim s)"

definition grade :: "string \<Rightarrow> string \<Rightarrow> bool" where
  \<comment> \<open>the comparison of \<^verbatim>\<open>handleRun\<close> (lines 266-281) and of \<^verbatim>\<open>handleSubmit\<close>
      (lines 320-334), which are the same text; the first argument is the actual output\<close>
  "grade actual expected =
     (let normalizedExpected = normalized expected;
          normalizedActual = normalized actual;
          expectedFloat = tryParseFloat normalizedExpected;
          actualFloat = tryParseFloat normalizedActual
      in case (expectedFloat, actualFloat) of
           (Some e, Some a) \<Rightarrow> js_lt (js_abs (js_sub e a)) lit_1e_2
         | _ \<Rightarrow> normalizedActual = normalizedExpected)"

section \<open>The input readers of \<^verbatim>\<open>runCode\<close>\<close>

text \<open>
  \<^verbatim>\<open>s.split(re)\<close> for a regular expression that matches maximal runs of the characters
  in \<open>P\<close> (\<^verbatim>\<open>/\s+/\<close>, \<^verbatim>\<open>/[\s\n]+/\<close>): the pieces between the runs, an empty piece
  before a leading run and after a trailing one. \<open>cur\<close> is the piece being read and
  \<open>in_run\<close> tells that the last character belonged to a run.
\<close>

fun split_runs :: "(char \<Rightarrow> bool) \<Rightarrow> string \<Rightarrow> bool \<Rightarrow> string \<Rightarrow> string list" where
  "split_runs P cur in_run [] = [cur]"
| "split_runs P cur in_run (c # cs) =
     (if P c then (if in_run then split_runs P [] True cs else cur # split_runs P [] True cs)
      else split_runs P (cur @ [c]) False cs)"

text \<open>\<^verbatim>\<open>s.split(/\r?\n/)\<close>: a line ends at LF, or at CR directly followed by LF.\<close>

fun split_lines :: "string \<Rightarrow> string \<Rightarrow> string list" where
  "split_lines cur [] = [cur]"
| "split_lines cur [c] = (if c = CHR 0x0A then [cur, []] else [cur @ [c]])"
| "split_lines cur (c # d # cs) =
     (if c = CHR 0x0A then cur # split_lines [] (d # cs)
      else if c = CHR 0x0D \<and> d = CHR 0x0A then cur # split_lines [] cs
      else split_lines (cur @ [c]) (d # cs))"

definition filter_Boolean :: "string list \<Rightarrow> string list" where
  \<comment> \<open>\<^verbatim>\<open>.filter(Boolean)\<close>: the empty string is the only falsy string\<close>
  "filter_Boolean xs = filter (\<lambda>x. x \<noteq> []) xs"

definition split_whitespace :: "string \<Rightarrow> string list" where
  \<comment> \<open>\<^verbatim>\<open>input.split(/\s+/).filter(Boolean)\<close>\<close>
  "split_whitespace s = filter_Boolean (split_runs is_space [] False s)"

definition split_newlines :: "string \<Rightarrow> string list" where
  \<comment> \<open>\<^verbatim>\<open>input.split(/\r?\n/).filter(Boolean)\<close>\<close>
  "split_newlines s = filter_Boolean (split_lines [] s)"

definition split_default :: "string \<Rightarrow> string list" where
  \<comment> \<open>\<^verbatim>\<open>input.split(/[\s\n]+/).filter(Boolean)\<close>\<close>
  "split_default s =
     filter_Boolean (split_runs (\<lambda>c. is_space c \<or> c = CHR 0x0A) [] False s)"

text \<open>
  What a read hands to the program: a string, or \<^verbatim>\<open>undefined\<close> (an index past the end
  of an array).
\<close>

datatype jsvalue = Str string | Undefined

text \<open>
  The closure \<^verbatim>\<open>inputProcessor\<close> with the variables it captures: \<open>Single inputValue\<close>,
  \<open>Sequential values index\<close> (the branches \<^verbatim>\<open>space_separated_integers\<close>,
  \<^verbatim>\<open>space_separated_with_operator\<close> and the fallback) and
  \<open>Multiline lines lineIndex currentLineNumbers numberIndex\<close>.
\<close>

datatype reader =
    Single string
  | Sequential "string list" nat
  | Multiline "string list" nat "string list" nat

definition no_more_input :: string where
  "no_more_input = ''No more input values available''"

text \<open>One call of the closure: the value returned (\<open>Inr\<close>) or the message of the error
  thrown (\<open>Inl\<close>), and the closure afterwards.\<close>

fun inputProcessor :: "reader \<Rightarrow> (string + jsvalue) \<times> reader" where
  "inputProcessor (Single inputValue) = (Inr (Str inputValue), Single [])"
| "inputProcessor (Sequential values index) =
     (if index < length values then (Inr (Str (values ! index)), Sequential values (index + 1))
      else (Inl no_more_input, Sequential values index))"
| "inputProcessor (Multiline lines lineIndex currentLineNumbers numberIndex) =
     (if numberIndex < length currentLineNumbers
      then (Inr (Str (currentLineNumbers ! numberIndex)),
            Multiline lines lineIndex currentLineNumbers (numberIndex + 1))
      else if lineIndex < length lines
      then (let line = lines ! lineIndex;
                numbers = split_whitespace line
            in (Inr (if 0 < length numbers then Str (numbers ! 0) else Undefined),
                Multiline lines (lineIndex + 1) numbers 1))
      else (Inl no_more_input, Multiline lines lineIndex currentLineNumbers numberIndex))"

definition make_inputProcessor :: "string option \<Rightarrow> string \<Rightarrow> reader" where
  \<comment> \<open>the dispatch on \<^verbatim>\<open>question.input_format\<close> (\<open>None\<close>: the field is absent)\<close>
  "make_inputProcessor inputFormat input =
     (if inputFormat = Some ''single_integer'' \<or> inputFormat = Some ''single_string''
        then Single input
      else if inputFormat = Some ''space_separated_integers''
        then Sequential (split_whitespace input) 0
      else if inputFormat = Some ''multiline_integers''
        then Multiline (split_newlines input) 0 [] 0
      else if inputFormat = Some ''space_separated_with_operator''
        then Sequential (split_whitespace input) 0
      else Sequential (split_default input) 0)"

text \<open>The results of the first \<open>n\<close> reads of a reader, in order.\<close>

fun reads :: "nat \<Rightarrow> reader \<Rightarrow> (string + jsvalue) list" where
  "reads 0 r = []"
| "reads (Suc n) r = (case inputProcessor r of (v, r') \<Rightarrow> v # reads n r')"

section \<open>Running one test: \<^verbatim>\<open>withTimeout\<close> and \<^verbatim>\<open>runCode\<close>\<close>

text \<open>
  The interpreter is outside the repository. One run of the user's program is given by
  what the component can observe of it: what becomes of the promise of
  \<^verbatim>\<open>pyodide.runPythonAsync(code)\<close>; the text that \<^verbatim>\<open>sys.stdout.getvalue()\<close> returns
  afterwards; and the interpreter's state after the run, which the next run starts
  from. The program receives the reader as its \<^verbatim>\<open>input\<close> function. The two fixed
  scripts of \<^verbatim>\<open>runCode\<close> (the redirection of \<^verbatim>\<open>sys.stdout\<close> and the read of its value)
  are taken to complete, and the value read to be a string.

  The interpreter is loaded into the window (\<^verbatim>\<open>window.loadPyodide\<close>) and runs the
  program on the page's only thread, the one that also runs the callback of
  \<^verbatim>\<open>setTimeout\<close>. So the promise of a run has four fates:
  \<^item> \<open>Completed\<close>: it resolves before the callback of the timer has run;
  \<^item> \<open>Raised m\<close>: it rejects before that, \<open>m\<close> being the message that
    \<^verbatim>\<open>err instanceof Error ? err.message : String(err)\<close> reads;
  \<^item> \<open>Pending\<close>: the program has given the thread back (it awaits) and the promise is
    still pending when \<^verbatim>\<open>TIMEOUT_MS\<close> have passed, so the callback of the timer runs;
  \<^item> \<open>Blocking\<close>: the program keeps the thread for ever (a loop that does not end), so
    the callback of the timer never runs and the promise never settles.

  Two messages used below open with a pictograph beyond code unit 255 in the source; it
  is written as its code point in brackets.
\<close>

datatype run_status = Completed | Raised string | Pending | Blocking

type_synonym 's interpreter = "string \<Rightarrow> reader \<Rightarrow> 's \<Rightarrow> (run_status \<times> string) \<times> 's"

definition time_limit_exceeded :: string where
  "time_limit_exceeded = ''[U+23F0] Time limit exceeded''"

text \<open>What becomes of \<^verbatim>\<open>Promise.race([p, timeout])\<close>: it resolves, it rejects with a
  message, or neither of the two promises ever settles and the \<^verbatim>\<open>await\<close> on it never
  returns.\<close>

datatype race = Resolved | Rejected string | Unsettled

definition withTimeout :: "run_status \<Rightarrow> race" where
  "withTimeout p =
     (case p of
        Completed \<Rightarrow> Resolved
      | Raised m \<Rightarrow> Rejected m
      | Pending \<Rightarrow> Rejected time_limit_exceeded
      | Blocking \<Rightarrow> Unsettled)"

text \<open>The type \<^verbatim>\<open>TestCase\<close>; its field \<^verbatim>\<open>output\<close> is called \<open>expected\<close>, the name
  \<^verbatim>\<open>handleSubmit\<close> binds it to.\<close>

record testcase =
  input :: string
  expected :: string
  hidden :: bool

record question =
  qid :: string
  input_format :: "string option"

definition no_output :: string where
  "no_output = ''[no output]''"

definition runCode ::
  "'s interpreter \<Rightarrow> string \<Rightarrow> testcase \<Rightarrow> question \<Rightarrow> 's \<Rightarrow> ((string + string) \<times> 's) option" where
  \<comment> \<open>\<open>Some (Inr x, s')\<close>: the value returned; \<open>Some (Inl m, s')\<close>: the message of the error
      thrown; \<open>None\<close>: the call never settles\<close>
  "runCode py code testCase question s =
     (case py code (make_inputProcessor (input_format question) (input testCase)) s of
        ((p, captured), s') \<Rightarrow>
          (case withTimeout p of
             Resolved \<Rightarrow>
               Some (Inr (if js_trim captured = [] then no_output else js_trim captured), s')
           | Rejected errorMessage \<Rightarrow>
               Some (Inl (if captured = [] then errorMessage else captured), s')
           | Unsettled \<Rightarrow> None))"

section \<open>Submitting: \<^verbatim>\<open>handleSubmit\<close>\<close>

record verdict =
  allPassed :: bool
  lines :: "string list"
  anyHiddenFailed :: bool

definition detail_failed :: "testcase \<Rightarrow> string \<Rightarrow> string list" where
  "detail_failed testCase actualOutput =
     [''Input:\<newline>'' @ input testCase @ ''\<newline>'',
      ''Expected Output:\<newline>'' @ expected testCase @ ''\<newline>'',
      ''Your Output:\<newline>'' @ actualOutput @ ''\<newline>'']"

definition detail_error :: "testcase \<Rightarrow> string \<Rightarrow> string list" where
  "detail_error testCase message =
     [''Input:\<newline>'' @ input testCase @ ''\<newline>'',
      ''Error: '' @ message @ ''\<newline>'']"

definition record_result :: "testcase \<Rightarrow> string + string \<Rightarrow> verdict \<Rightarrow> verdict" where
  \<comment> \<open>the body of the loop after \<^verbatim>\<open>runCode\<close> has settled: the \<^verbatim>\<open>try\<close> branch for a
      value, the \<^verbatim>\<open>catch\<close> branch for an error\<close>
  "record_result testCase r v =
     (case r of
        Inr actualOutput \<Rightarrow>
          if grade actualOutput (expected testCase) then v
          else if hidden testCase
            then v\<lparr>allPassed := False, anyHiddenFailed := True\<rparr>
            else v\<lparr>allPassed := False, lines := lines v @ detail_failed testCase actualOutput\<rparr>
      | Inl message \<Rightarrow>
          if hidden testCase
            then v\<lparr>allPassed := False, anyHiddenFailed := True\<rparr>
            else v\<lparr>allPassed := False, lines := lines v @ detail_error testCase message\<rparr>)"

text \<open>The loop over the tests: the verdict and the interpreter state after the last
  test, or \<open>None\<close> when the \<^verbatim>\<open>await\<close> of some \<^verbatim>\<open>runCode\<close> never returns.\<close>

fun submit_loop ::
  "'s interpreter \<Rightarrow> string \<Rightarrow> question \<Rightarrow> testcase list \<Rightarrow> 's \<Rightarrow> verdict \<Rightarrow>
     (verdict \<times> 's) option" where
  "submit_loop py code question [] s v = Some (v, s)"
| "submit_loop py code question (testCase # rest) s v =
     (case runCode py code testCase question s of
        None \<Rightarrow> None
      | Some (r, s') \<Rightarrow> submit_loop py code question rest s' (record_result testCase r v))"

definition initial_verdict :: verdict where
  "initial_verdict = \<lparr>allPassed = True, lines = [], anyHiddenFailed = False\<rparr>"

fun js_join :: "string \<Rightarrow> string list \<Rightarrow> string" where
  "js_join sep [] = []"
| "js_join sep [x] = x"
| "js_join sep (x # y # ys) = x @ sep @ js_join sep (y # ys)"

definition hidden_failed_message :: string where
  "hidden_failed_message = ''Some hidden test cases failed. Check for edge cases!''"

definition all_passed_banner :: string where
  "all_passed_banner = ''[U+1F389] All tests passed!''"

text \<open>
  The progress store is outside the repository too. A call of \<^verbatim>\<open>setDoc\<close> is recorded
  with the document it addresses and the three fields it sends;
  \<^verbatim>\<open>{ merge: true }\<close> is the only mode the component uses.
\<close>

record setDoc_call =
  users_doc :: string
  solved_key :: string
  lastSolved_value :: string
  stamp_field :: string
  stamp_value :: int

text \<open>
  What surrounds a call: the signed-in user's \<^verbatim>\<open>uid\<close> (\<open>None\<close>: no user), the clock
  (\<^verbatim>\<open>Date.now()\<close>, \<^verbatim>\<open>new Date().toISOString()\<close>), and whether the store rejects the
  write (\<open>Some e\<close>, with \<open>e\<close> the text of \<^verbatim>\<open>e.message || e\<close>).
\<close>

record env =
  user :: "string option"
  date_now :: int
  iso_now :: string
  setDoc_rejects :: "string option"

record 's component =
  loading :: bool
  pyodide :: "'s option"
  code :: string
  shown :: string
  solvedMap :: "string \<Rightarrow> bool option"
  setDoc_calls :: "setDoc_call list"

definition signed_in :: "env \<Rightarrow> bool" where
  \<comment> \<open>\<^verbatim>\<open>user && user.uid\<close>\<close>
  "signed_in e = (case user e of None \<Rightarrow> False | Some uid \<Rightarrow> uid \<noteq> [])"

definition solved_call :: "env \<Rightarrow> string \<Rightarrow> setDoc_call" where
  "solved_call e questionId =
     \<lparr>users_doc = (case user e of None \<Rightarrow> [] | Some uid \<Rightarrow> uid),
      solved_key = questionId,
      lastSolved_value = iso_now e,
      stamp_field = ''solved_'' @ questionId,
      stamp_value = date_now e\<rparr>"

text \<open>The component after the call has returned; \<open>None\<close> when it never returns.\<close>

definition handleSubmit ::
  "'s interpreter \<Rightarrow> question list \<Rightarrow> string \<Rightarrow> testcase list \<Rightarrow> env \<Rightarrow>
   's component \<Rightarrow> 's component option" where
  "handleSubmit py allQuestions questionId tests e c =
     (case pyodide c of
        None \<Rightarrow> Some c
      | Some s \<Rightarrow>
          if loading c then Some c
          else
            (case find (\<lambda>q. qid q = questionId) allQuestions of
               None \<Rightarrow> Some (c\<lparr>shown := ''Error: Question not found''\<rparr>)
             | Some question \<Rightarrow>
                 (case submit_loop py (code c) question tests s initial_verdict of
                    None \<Rightarrow> None
                  | Some (v, s') \<Rightarrow>
                      if anyHiddenFailed v
                        then Some (c\<lparr>pyodide := Some s', shown := hidden_failed_message\<rparr>)
                      else if allPassed v \<and> signed_in e
                        then
                          (case setDoc_rejects e of
                             Some err \<Rightarrow>
                               Some (c\<lparr>pyodide := Some s', shown := ''Error: '' @ err,
                                 setDoc_calls := setDoc_calls c @ [solved_call e questionId]\<rparr>)
                           | None \<Rightarrow>
                               Some (c\<lparr>pyodide := Some s',
                                 shown := js_join ''\<newline>'' (lines v @ [[], all_passed_banner]),
                                 solvedMap := (solvedMap c)(questionId \<mapsto> True),
                                 setDoc_calls := setDoc_calls c @ [solved_call e questionId]\<rparr>))
                      else Some (c\<lparr>pyodide := Some s',
                                   shown := js_join ''\<newline>'' (lines v)\<rparr>))))"

text \<open>
  The store's side of a call, as far as \<^verbatim>\<open>{ merge: true }\<close> touches these fields: the
  document is created when absent, the entry of the \<^verbatim>\<open>solved\<close> map and the two
  top-level fields are set, everything else is kept.
\<close>

record user_doc =
  solved :: "string \<Rightarrow> bool option"
  lastSolved :: "string option"
  stamps :: "string \<Rightarrow> int option"

definition setDoc_merge ::
  "setDoc_call \<Rightarrow> (string \<Rightarrow> user_doc option) \<Rightarrow> (string \<Rightarrow> user_doc option)" where
  "setDoc_merge k db =
     (let d = (case db (users_doc k) of
                 None \<Rightarrow> \<lparr>solved = Map.empty, lastSolved = None, stamps = Map.empty\<rparr>
               | Some d \<Rightarrow> d)
      in db(users_doc k \<mapsto>
           d\<lparr>solved := (solved d)(solved_key k \<mapsto> True),
             lastSolved := Some (lastSolved_value k),
             stamps := (stamps d)(stamp_field k \<mapsto> stamp_value k)\<rparr>))"

section \<open>The comparison of the second source file\<close>

text \<open>
  \<^verbatim>\<open>src/unnamed/part_000\<close> is another version of the component. Its \<^verbatim>\<open>handleRun\<close>
  (lines 196-201) and \<^verbatim>\<open>handleSubmit\<close> (lines 265-270) compare with the same three
  statements: the output collected from \<^verbatim>\<open>print\<close> is trimmed, both sides are
  lower-cased, and the two are compared as strings.
\<close>

definition legacy_passed :: "string \<Rightarrow> string \<Rightarrow> bool" where
  "legacy_passed actualOutput expected_output =
     (let trimmed = js_trim actualOutput;
          normalizedExpected = js_toLowerCase expected_output;
          normalizedActual = js_toLowerCase trimmed
      in normalizedActual = normalizedExpected)"

section \<open>Vocabulary of the statements\<close>

text \<open>
  The results of \<^verbatim>\<open>runCode\<close> on the tests of a suite, in order, each run starting from
  the interpreter state the run before it left; and the state after the last one.
  There is none when one of the runs never settles.
\<close>

fun run_all ::
  "'s interpreter \<Rightarrow> string \<Rightarrow> question \<Rightarrow> testcase list \<Rightarrow> 's \<Rightarrow>
     ((string + string) list \<times> 's) option" where
  "run_all py src q [] s = Some ([], s)"
| "run_all py src q (t # ts) s =
     (case runCode py src t q s of
        None \<Rightarrow> None
      | Some (r, s') \<Rightarrow>
          (case run_all py src q ts s' of
             None \<Rightarrow> None
           | Some (rs, s'') \<Rightarrow> Some (r # rs, s'')))"


definition test_passed :: "testcase \<times> (string + string) \<Rightarrow> bool" where
  \<comment> \<open>a test with its result passes: \<^verbatim>\<open>runCode\<close> returned and the grader accepts\<close>
  "test_passed tr =
     (case snd tr of Inr actualOutput \<Rightarrow> grade actualOutput (expected (fst tr)) | Inl m \<Rightarrow> False)"

definition detail :: "testcase \<times> (string + string) \<Rightarrow> string list" where
  \<comment> \<open>the block of lines of a failing public test\<close>
  "detail tr =
     (case snd tr of
        Inr actualOutput \<Rightarrow> detail_failed (fst tr) actualOutput
      | Inl m \<Rightarrow> detail_error (fst tr) m)"

definition public_failures ::
  "testcase list \<Rightarrow> (string + string) list \<Rightarrow> (testcase \<times> (string + string)) list" where
  "public_failures ts rs = filter (\<lambda>tr. \<not> hidden (fst tr) \<and> \<not> test_passed tr) (zip ts rs)"

definition public_part ::
  "testcase list \<Rightarrow> (string + string) list \<Rightarrow> (testcase \<times> (string + string)) list" where
  \<comment> \<open>the public tests of a suite with their results: what the user may see\<close>
  "public_part ts rs = filter (\<lambda>tr. \<not> hidden (fst tr)) (zip ts rs)"

definition hidden_failure :: "testcase list \<Rightarrow> (string + string) list \<Rightarrow> bool" where
  "hidden_failure ts rs = list_ex (\<lambda>tr. hidden (fst tr) \<and> \<not> test_passed tr) (zip ts rs)"

definition all_pass :: "testcase list \<Rightarrow> (string + string) list \<Rightarrow> bool" where
  "all_pass ts rs = list_all test_passed (zip ts rs)"


text \<open>The integer nearest to a rational, a tie going to the even neighbour.\<close>

definition rne :: "rat \<Rightarrow> int" where
  "rne r =
     (let f = \<lfloor>r\<rfloor>; t = r - of_int f
      in if t < 1 / 2 then f else if 1 / 2 < t then f + 1 else if even f then f else f + 1)"

text \<open>
  A program for the examples. It reads once and prints what it read. An error of the
  read is not caught; on the token \<open>sleep\<close> it awaits for ever, on the token \<open>spin\<close> it
  loops for ever. The interpreter state counts the runs.
\<close>

definition echo :: "nat interpreter" where
  "echo src r n =
     (case fst (inputProcessor r) of
        Inl m \<Rightarrow> ((Raised m, []), Suc n)
      | Inr Undefined \<Rightarrow> ((Completed, []), Suc n)
      | Inr (Str x) \<Rightarrow>
          if x = ''sleep'' then ((Pending, []), Suc n)
          else if x = ''spin'' then ((Blocking, []), Suc n)
          else ((Completed, x @ ''\<newline>''), Suc n))"

text \<open>Another one: it reads nothing and prints an empty line.\<close>

definition blank :: "nat interpreter" where
  "blank src r n = ((Completed, ''\<newline>''), Suc n)"


text \<open>Data for the examples: a question, a component whose interpreter is ready, the
  surroundings of a call with a given user, and a test.\<close>

definition ex_question :: question where
  "ex_question = \<lparr>qid = ''easy-1'', input_format = Some ''space_separated_integers''\<rparr>"

definition ex_component :: "nat component" where
  "ex_component = \<lparr>loading = False, pyodide = Some 0, code = ''print(input())'', shown = [],
     solvedMap = Map.empty, setDoc_calls = []\<rparr>"



definition ex_env :: "string option \<Rightarrow> env" where
  "ex_env u = \<lparr>user = u, date_now = 1700000000000, iso_now = ''2023-11-14T22:13:20.000Z'',
     setDoc_rejects = None\<rparr>"

definition ex_test :: "string \<Rightarrow> string \<Rightarrow> bool \<Rightarrow> testcase" where
  "ex_test i x h = \<lparr>input = i, expected = x, hidden = h\<rparr>"

section \<open>Facts about the readers\<close>

lemma reads_Single_empty: "reads n (Single []) = replicate n (Inr (Str []))"
  by (induction n) simp_all

lemma reads_Sequential:
  "reads n (Sequential values index) =
     map (\<lambda>t. Inr (Str t)) (take n (drop index values)) @
     replicate (n - (length values - index)) (Inl no_more_input)"
proof (induction n arbitrary: index)
  case 0
  show ?case by simp
next
  case (Suc n)
  show ?case
  proof (cases "index < length values")
    case True
    then have "drop index values = values ! index # drop (Suc index) values"
      by (simp add: Cons_nth_drop_Suc)
    with True Suc show ?thesis by (simp add: Suc_diff_Suc)
  next
    case False
    with Suc show ?thesis by (simp add: replicate_append_same)
  qed
qed

lemma split_default_eq: "split_default s = split_whitespace s"
proof -
  have "(\<lambda>c. is_space c \<or> c = CHR 0x0A) = is_space"
    by (auto simp: is_space_def fun_eq_iff)
  then show ?thesis by (simp add: split_default_def split_whitespace_def)
qed

text \<open>
  C5. With the format \<^verbatim>\<open>multiline_integers\<close> and the input \<open>3\<close>, newline, \<open>1 2 3\<close>, the
  first four reads return \<open>3\<close>, \<open>1\<close>, \<open>2\<close>, \<open>3\<close> and the fifth throws the error of an
  exhausted input. The reader starts with the two lines untouched; the first read
  splits the first line only, and the second line is split by the read that reaches it.
\<close>

theorem multiline_reads_example:
  "reads 5 (make_inputProcessor (Some ''multiline_integers'') ''3\<newline>1 2 3'') =
     [Inr (Str ''3''), Inr (Str ''1''), Inr (Str ''2''), Inr (Str ''3''),
      Inl ''No more input values available'']
   \<and> make_inputProcessor (Some ''multiline_integers'') ''3\<newline>1 2 3'' =
       Multiline [''3'', ''1 2 3''] 0 [] 0
   \<and> snd (inputProcessor (Multiline [''3'', ''1 2 3''] 0 [] 0)) =
       Multiline [''3'', ''1 2 3''] 1 [''3''] 1
   \<and> snd (inputProcessor (Multiline [''3'', ''1 2 3''] 1 [''3''] 1)) =
       Multiline [''3'', ''1 2 3''] 2 [''1'', ''2'', ''3''] 1"
  by (simp add: make_inputProcessor_def split_newlines_def split_whitespace_def
      filter_Boolean_def is_space_def no_more_input_def numeral_eq_Suc)

text \<open>
  C6. With the formats \<^verbatim>\<open>single_integer\<close> and \<^verbatim>\<open>single_string\<close> the first read
  returns the whole input unchanged and each later read returns the empty string; no
  read throws, however many there are.
\<close>

theorem single_value_reads:
  "reads (Suc n) (make_inputProcessor (Some ''single_integer'') inp) =
     Inr (Str inp) # replicate n (Inr (Str []))
   \<and> reads (Suc n) (make_inputProcessor (Some ''single_string'') inp) =
     Inr (Str inp) # replicate n (Inr (Str []))"
  by (simp add: make_inputProcessor_def reads_Single_empty)

text \<open>
  C7. For every input, the formats \<^verbatim>\<open>space_separated_integers\<close> and
  \<^verbatim>\<open>space_separated_with_operator\<close> and every format that falls through to the
  default branch build the same reader: any number of reads gives the same results,
  namely the tokens between runs of white space, in order, and from the first read
  after the last token on the error of an exhausted input.
\<close>

theorem whitespace_formats_agree:
  assumes "fmt \<notin> set (map Some [''single_integer'', ''single_string'',
      ''space_separated_integers'', ''multiline_integers'', ''space_separated_with_operator''])"
  shows "make_inputProcessor (Some ''space_separated_with_operator'') inp =
         make_inputProcessor (Some ''space_separated_integers'') inp
       \<and> make_inputProcessor fmt inp = make_inputProcessor (Some ''space_separated_integers'') inp
       \<and> reads n (make_inputProcessor (Some ''space_separated_with_operator'') inp) =
         reads n (make_inputProcessor (Some ''space_separated_integers'') inp)
       \<and> reads n (make_inputProcessor fmt inp) =
         reads n (make_inputProcessor (Some ''space_separated_integers'') inp)
       \<and> reads n (make_inputProcessor (Some ''space_separated_integers'') inp) =
         map (\<lambda>t. Inr (Str t)) (take n (split_whitespace inp)) @
         replicate (n - length (split_whitespace inp)) (Inl no_more_input)"
  using assms by (simp add: make_inputProcessor_def split_default_eq reads_Sequential)

theorem whitespace_formats_agree_witness:
  "None \<notin> set (map Some [''single_integer'', ''single_string'',
      ''space_separated_integers'', ''multiline_integers'', ''space_separated_with_operator''])
   \<and> reads 3 (make_inputProcessor None '' 5 + '') =
       reads 3 (make_inputProcessor (Some ''space_separated_integers'') '' 5 + '')
   \<and> reads 3 (make_inputProcessor (Some ''space_separated_with_operator'') '' 5 + '') =
       reads 3 (make_inputProcessor (Some ''space_separated_integers'') '' 5 + '')
   \<and> reads 3 (make_inputProcessor (Some ''space_separated_integers'') '' 5 + '') =
       [Inr (Str ''5''), Inr (Str ''+''), Inl no_more_input]"
proof -
  have h: "None \<notin> set (map Some [''single_integer'', ''single_string'',
      ''space_separated_integers'', ''multiline_integers'', ''space_separated_with_operator''])"
    by simp
  have "split_whitespace '' 5 + '' = [''5'', ''+'']"
    by (simp add: split_whitespace_def filter_Boolean_def is_space_def)
  with whitespace_formats_agree [OF h, of "'' 5 + ''" 3] h show ?thesis
    by (simp add: numeral_eq_Suc)
qed

section \<open>Facts about rounding to binary64\<close>

text \<open>
  The rounding is the one of a rational mantissa: \<open>round_pos\<close> takes \<open>p / q\<close> to
  \<open>m * 2^e\<close> with \<open>e\<close> the exponent of the binade (at least \<open>-1074\<close>) and \<open>m\<close> the
  integer nearest to \<open>p / q / 2^e\<close>. Hence a rounded value has at most 53 significant
  bits, rounding it again changes nothing, and no rounded value lies between one
  hundredth and the literal \<open>1e-2\<close>.
\<close>

lemma round_half_even_rne:
  assumes "0 < d"
  shows "round_half_even n d = rne (of_int n / of_int d)"
proof -
  have f: "\<lfloor>(of_int n / of_int d :: rat)\<rfloor> = n div d"
    by (rule floor_divide_of_int_eq)
  have "(of_int n :: rat) = of_int (n div d) * of_int d + of_int (n mod d)"
    by (metis of_int_add of_int_mult div_mult_mod_eq)
  then have t: "(of_int n / of_int d :: rat) - of_int (n div d) = of_int (n mod d) / of_int d"
    using assms by (simp add: field_simps)
  have a: "(of_int (n mod d) / of_int d < (1 / 2 :: rat)) = (2 * (n mod d) < d)"
  proof -
    have "(of_int (n mod d) / of_int d < (1 / 2 :: rat)) = ((of_int (2 * (n mod d)) :: rat) < of_int d)"
      using assms by (simp add: field_simps)
    then show ?thesis by (simp only: of_int_less_iff)
  qed
  have b: "((1 / 2 :: rat) < of_int (n mod d) / of_int d) = (d < 2 * (n mod d))"
  proof -
    have "((1 / 2 :: rat) < of_int (n mod d) / of_int d) = ((of_int d :: rat) < of_int (2 * (n mod d)))"
      using assms by (simp add: field_simps)
    then show ?thesis by (simp only: of_int_less_iff)
  qed
  show ?thesis
    by (simp only: round_half_even_def rne_def Let_def f t a b)
qed

lemma rne_of_int: "rne (of_int m) = m"
  by (simp add: rne_def)

lemma rne_lower: "of_int a \<le> r \<Longrightarrow> a \<le> rne r"
proof -
  assume "of_int a \<le> r"
  then have "a \<le> \<lfloor>r\<rfloor>" by (simp add: le_floor_iff)
  then show ?thesis by (auto simp: rne_def Let_def)
qed

lemma rne_upper: "r < of_int b \<Longrightarrow> rne r \<le> b"
proof -
  assume "r < of_int b"
  then have "\<lfloor>r\<rfloor> < b" by (simp add: floor_less_iff)
  then show ?thesis by (auto simp: rne_def Let_def)
qed

lemma pow2_le_rat:
  assumes "0 < q"
  shows "pow2_le k p q \<longleftrightarrow> (2 :: rat) powi k \<le> of_int p / of_int q"
proof (cases "0 \<le> k")
  case True
  have "((2 :: rat) ^ nat k \<le> of_int p / of_int q) = ((of_int (q * 2 ^ nat k) :: rat) \<le> of_int p)"
    using assms by (simp add: field_simps)
  also have "\<dots> = (q * 2 ^ nat k \<le> p)" by (simp only: of_int_le_iff)
  finally show ?thesis using True by (simp add: pow2_le_def power_int_def)
next
  case False
  have "(inverse (2 :: rat) ^ nat (- k) \<le> of_int p / of_int q)
      = ((of_int q :: rat) \<le> of_int (p * 2 ^ nat (- k)))"
    using assms by (simp add: field_simps power_inverse)
  also have "\<dots> = (q \<le> p * 2 ^ nat (- k))" by (simp only: of_int_le_iff)
  finally show ?thesis using False by (simp add: pow2_le_def power_int_def)
qed

lemma pow2_unique:
  fixes r :: rat
  assumes "2 powi a \<le> r" "r < 2 powi (a + 1)" "2 powi b \<le> r" "r < 2 powi (b + 1)"
  shows "a = b"
proof -
  have lt: "x < y + 1" if "(2 :: rat) powi x < 2 powi (y + 1)" for x y :: int
  proof (rule ccontr)
    assume "\<not> x < y + 1"
    then have "y + 1 \<le> x" by simp
    then have "(2 :: rat) powi (y + 1) \<le> 2 powi x" by (intro power_int_increasing) simp_all
    with that show False by simp
  qed
  from assms have "(2 :: rat) powi a < 2 powi (b + 1)" "(2 :: rat) powi b < 2 powi (a + 1)"
    by linarith+
  then have "a < b + 1" "b < a + 1" by (auto dest: lt)
  then show ?thesis by simp
qed


lemma bitlen_bounds_rat:
  assumes "0 < p"
  shows "(2 :: rat) powi (bitlen p - 1) \<le> of_int p" and "(of_int p :: rat) < 2 powi bitlen p"
proof -
  from assms have b: "1 \<le> bitlen p" by (auto simp: bitlen_alt_def)
  from bitlen_bounds [OF assms]
  have "(of_int (2 ^ nat (bitlen p - 1)) :: rat) \<le> of_int p"
    and "(of_int p :: rat) < of_int (2 ^ nat (bitlen p))"
    by (simp_all only: of_int_le_iff of_int_less_iff)
  with b show "(2 :: rat) powi (bitlen p - 1) \<le> of_int p"
    and "(of_int p :: rat) < 2 powi bitlen p"
    by (simp_all add: power_int_def)
qed

lemma flog2_bounds:
  assumes "0 < p" "0 < q"
  shows "(2 :: rat) powi flog2 p q \<le> of_int p / of_int q"
    and "(of_int p / of_int q :: rat) < 2 powi (flog2 p q + 1)"
proof -
  let ?r = "of_int p / of_int q :: rat"
  let ?k = "bitlen p - bitlen q"
  have "?r < 2 powi bitlen p / 2 powi (bitlen q - 1)"
    using assms bitlen_bounds_rat [of p] bitlen_bounds_rat [of q]
    by (intro frac_less) simp_all
  also have "\<dots> = 2 powi (?k + 1)"
    by (simp add: power_int_diff [symmetric] algebra_simps)
  finally have up: "?r < 2 powi (?k + 1)" .
  have "(2 :: rat) powi (bitlen p - 1) / 2 powi bitlen q < ?r"
    using assms bitlen_bounds_rat [of p] bitlen_bounds_rat [of q]
    by (intro frac_less2) simp_all
  also have "(2 :: rat) powi (bitlen p - 1) / 2 powi bitlen q = 2 powi (?k - 1)"
    by (simp add: power_int_diff [symmetric] algebra_simps)
  finally have lo: "2 powi (?k - 1) < ?r" .
  show "(2 :: rat) powi flog2 p q \<le> ?r"
    using lo pow2_le_rat [OF assms(2), of ?k p]
    by (auto simp: flog2_def Let_def)
  show "?r < 2 powi (flog2 p q + 1)"
    using up pow2_le_rat [OF assms(2), of ?k p]
    by (auto simp: flog2_def Let_def)
qed

lemma flog2_unique:
  assumes "0 < p" "0 < q"
    and "(2 :: rat) powi L \<le> of_int p / of_int q" "(of_int p / of_int q :: rat) < 2 powi (L + 1)"
  shows "flog2 p q = L"
  using pow2_unique [OF flog2_bounds [OF assms(1,2)] assms(3,4)] .

lemma scaled_powi:
  "(if 0 \<le> e then (of_int (m * 2 ^ nat e) :: rat) else of_int m / of_int (2 ^ nat (- e))) =
     of_int m * 2 powi e"
  by (simp add: power_int_def power_inverse field_simps)

lemma mantissa_rne:
  assumes "0 < q"
  shows "(if 0 \<le> e then round_half_even p (q * 2 ^ nat e)
          else round_half_even (p * 2 ^ nat (- e)) q) =
         rne (of_int p / of_int q / 2 powi e)"
proof (cases "0 \<le> e")
  case True
  with assms show ?thesis
    by (simp add: round_half_even_rne power_int_def)
next
  case False
  with assms show ?thesis
    by (simp add: round_half_even_rne power_int_def power_inverse field_simps)
qed

lemma round_pos_rat:
  assumes "0 < q"
  shows "round_pos p q =
     (let e = max (flog2 p q - 52) (- 1074);
          m = rne (of_int p / of_int q / 2 powi e)
      in if 0 \<le> e \<and> (2 :: rat) ^ 1024 \<le> of_int m * 2 powi e then None
         else Some (of_int m * 2 powi e))"
proof -
  have o: "(2 ^ 1024 \<le> m * 2 ^ nat e) = ((2 :: rat) ^ 1024 \<le> of_int m * 2 powi e)"
    if "0 \<le> e" for m e :: int
  proof -
    have "(2 ^ 1024 \<le> m * 2 ^ nat e) = ((of_int (2 ^ 1024) :: rat) \<le> of_int (m * 2 ^ nat e))"
      by (simp only: of_int_le_iff)
    with that show ?thesis by (simp add: power_int_def)
  qed
  show ?thesis
    unfolding round_pos_def Let_def mantissa_rne [OF assms] scaled_powi
    using o by auto
qed


lemma mantissa_bounds:
  assumes "0 < p" "0 < q"
  defines "e \<equiv> max (flog2 p q - 52) (- 1074)"
  defines "m \<equiv> rne (of_int p / of_int q / 2 powi e)"
  shows "0 \<le> m" and "m \<le> 2 ^ 53" and "- 1074 < e \<Longrightarrow> 2 ^ 52 \<le> m"
proof -
  let ?r = "of_int p / of_int q :: rat"
  have pos: "0 < ?r" using assms by simp
  from pos have "0 \<le> ?r" by (rule less_imp_le)
  moreover have "(0 :: rat) < 2 powi e" by simp
  ultimately have "(0 :: rat) \<le> ?r / 2 powi e" by (rule divide_nonneg_pos)
  then have "(of_int 0 :: rat) \<le> ?r / 2 powi e" by simp
  then show "0 \<le> m" unfolding m_def by (rule rne_lower)
  have "?r < 2 powi (flog2 p q + 1)" by (rule flog2_bounds [OF assms(1,2)])
  also have "\<dots> \<le> 2 powi (e + 53)"
    by (intro power_int_increasing) (simp_all add: e_def)
  also have "\<dots> = 2 powi e * 2 ^ 53" by (simp add: power_int_add)
  finally have "?r < 2 ^ 53 * 2 powi e" by (simp only: mult.commute)
  then have "?r / 2 powi e < 2 ^ 53" by (simp only: pos_divide_less_eq zero_less_power_int zero_less_numeral)
  then have "?r / 2 powi e < of_int (2 ^ 53)" by simp
  then show "m \<le> 2 ^ 53" unfolding m_def by (rule rne_upper)
  assume "- 1074 < e"
  then have e: "flog2 p q = e + 52" by (simp add: e_def max_def split: if_splits)
  have "(2 :: rat) powi e * 2 ^ 52 = 2 powi (e + 52)" by (simp add: power_int_add)
  also have "\<dots> \<le> ?r" using flog2_bounds(1) [OF assms(1,2)] by (simp add: e)
  finally have "2 ^ 52 * 2 powi e \<le> ?r" by (simp only: mult.commute)
  then have "2 ^ 52 \<le> ?r / 2 powi e" by (simp only: pos_le_divide_eq zero_less_power_int zero_less_numeral)
  then have "(of_int (2 ^ 52) :: rat) \<le> ?r / 2 powi e" by simp
  then show "2 ^ 52 \<le> m" unfolding m_def by (rule rne_lower)
qed

lemma round_pos_fixed:
  assumes m: "0 < m" "m \<le> 2 ^ 53"
    and e: "- 1074 \<le> e" "- 1074 < e \<Longrightarrow> 2 ^ 52 \<le> m"
    and v: "v = of_int m * 2 powi e" "v < 2 ^ 1024"
    and q: "quotient_of v = (n, d)"
  shows "round_pos n d = Some v"
proof -
  from q have d: "0 < d" by (rule quotient_of_denom_pos)
  from q have vq: "v = of_int n / of_int d" by (rule quotient_of_div)
  have vpos: "0 < v" using m v by simp
  with vq d have n: "0 < n" by (simp add: zero_less_divide_iff)
  have div: "v / 2 powi e = of_int m" using v by simp
  consider (top) "m = 2 ^ 53" | (normal) "2 ^ 52 \<le> m" "m < 2 ^ 53" | (sub) "m < 2 ^ 52"
    using m by linarith
  then show ?thesis
  proof cases
    case top
    have v2: "v = 2 powi (e + 53)" using v top by (simp add: power_int_add)
    have "flog2 n d = e + 53"
    proof (rule flog2_unique [OF n d])
      show "(2 :: rat) powi (e + 53) \<le> of_int n / of_int d" using v2 vq by simp
      have "(2 :: rat) powi (e + 53) < 2 powi (e + 53 + 1)"
        by (intro power_int_strict_increasing) simp_all
      then show "(of_int n / of_int d :: rat) < 2 powi (e + 53 + 1)" using v2 vq by simp
    qed
    moreover have "max (e + 53 - 52) (- 1074) = e + 1" using e by simp
    moreover have "v / 2 powi (e + 1) = of_int (2 ^ 52)"
      using v top by (simp add: power_int_add)
    moreover have "of_int (2 ^ 52) * 2 powi (e + 1) = v"
      using v top by (simp add: power_int_add)
    ultimately show ?thesis
      using v(2) by (simp add: round_pos_rat [OF d] vq [symmetric] rne_of_int del: of_int_power of_int_numeral)
  next
    case normal
    have "flog2 n d = e + 52"
    proof (rule flog2_unique [OF n d])
      have "(2 :: rat) powi (e + 52) = of_int (2 ^ 52) * 2 powi e" by (simp add: power_int_add)
      also have "\<dots> \<le> of_int m * 2 powi e"
        using normal(1) by (intro mult_right_mono) (simp_all only: of_int_le_iff, simp)
      finally show "(2 :: rat) powi (e + 52) \<le> of_int n / of_int d" using v vq by simp
      have "of_int m * (2 :: rat) powi e < of_int (2 ^ 53) * 2 powi e"
        using normal(2) by (intro mult_strict_right_mono) (simp_all only: of_int_less_iff, simp)
      also have "\<dots> = 2 powi (e + 52 + 1)" by (simp add: power_int_add)
      finally show "(of_int n / of_int d :: rat) < 2 powi (e + 52 + 1)" using v vq by simp
    qed
    moreover have "max (e + 52 - 52) (- 1074) = e" using e by simp
    ultimately show ?thesis
      using v(2) div v(1) by (simp add: round_pos_rat [OF d] vq [symmetric] rne_of_int)
  next
    case sub
    with e have e1: "e = - 1074" by fastforce
    have "(2 :: rat) powi flog2 n d \<le> v" using flog2_bounds(1) [OF n d] vq by simp
    also have "v < of_int (2 ^ 52) * 2 powi e"
      unfolding v(1) using sub by (intro mult_strict_right_mono) (simp_all only: of_int_less_iff, simp)
    also have "\<dots> = 2 powi (e + 52)" by (simp add: power_int_add)
    finally have "flog2 n d < e + 52"
    proof -
      assume a: "(2 :: rat) powi flog2 n d < 2 powi (e + 52)"
      show ?thesis
      proof (rule ccontr)
        assume "\<not> flog2 n d < e + 52"
        then have "(2 :: rat) powi (e + 52) \<le> 2 powi flog2 n d"
          by (intro power_int_increasing) simp_all
        with a show False by simp
      qed
    qed
    then have "max (flog2 n d - 52) (- 1074) = e" using e1 by simp
    then show ?thesis
      using v(2) div v(1) by (simp add: round_pos_rat [OF d] vq [symmetric] rne_of_int)
  qed
qed


lemma round_double_grid:
  assumes "round_double x = Fin y" and "y \<noteq> 0"
  shows "\<exists>m e. \<bar>y\<bar> = of_int m * 2 powi e \<and> 0 < m \<and> m \<le> 2 ^ 53 \<and> - 1074 \<le> e
     \<and> (- 1074 < e \<longrightarrow> 2 ^ 52 \<le> m) \<and> \<bar>y\<bar> < 2 ^ 1024"
proof -
  from assms have x: "x \<noteq> 0" by (auto simp: round_double_def)
  obtain n d where q: "quotient_of \<bar>x\<bar> = (n, d)" by (cases "quotient_of \<bar>x\<bar>")
  from q have d: "0 < d" by (rule quotient_of_denom_pos)
  from q have xq: "\<bar>x\<bar> = of_int n / of_int d" by (rule quotient_of_div)
  from x have "0 < \<bar>x\<bar>" by simp
  with xq have "0 < (of_int n / of_int d :: rat)" by simp
  with d have n: "0 < n" by (simp add: zero_less_divide_iff)
  define e where "e = max (flog2 n d - 52) (- 1074)"
  define m where "m = rne (of_int n / of_int d / 2 powi e)"
  define v where "v = (of_int m :: rat) * 2 powi e"
  note mb = mantissa_bounds [OF n d, folded e_def, folded m_def]
  have rp: "round_pos n d = (if 0 \<le> e \<and> 2 ^ 1024 \<le> v then None else Some v)"
    by (simp only: round_pos_rat [OF d] Let_def v_def m_def e_def)
  with assms x q have some: "round_pos n d = Some v" and y: "y = (if 0 < x then v else - v)"
    by (auto simp: round_double_def split: if_splits)
  from y assms(2) have v0: "v \<noteq> 0" by (cases "0 < x") simp_all
  with mb(1) have mpos: "0 < m" by (auto simp: v_def order_less_le)
  have vpos: "0 < v" using mpos by (simp add: v_def)
  with y have av: "\<bar>y\<bar> = v" by (cases "0 < x") simp_all
  have small: "v < 2 ^ 1024"
  proof (cases "0 \<le> e")
    case True
    with rp some show ?thesis by (simp split: if_splits)
  next
    case False
    then have "(2 :: rat) powi e \<le> 2 powi 0" by (intro power_int_increasing) simp_all
    then have "v \<le> of_int m * 1"
      unfolding v_def using mpos by (intro mult_left_mono) simp_all
    also have "\<dots> \<le> of_int (2 ^ 53)" using mb(2) by (simp only: mult_1_right of_int_le_iff)
    also have "\<dots> < (2 :: rat) ^ 1024" by simp
    finally show ?thesis .
  qed
  have e: "- 1074 \<le> e" by (simp add: e_def)
  from av v_def mpos mb(2) e mb(3) small show ?thesis by blast
qed

lemma round_double_fixed:
  assumes "round_double x = Fin y"
  shows "round_double y = Fin y"
proof (cases "y = 0")
  case True
  then show ?thesis by (simp add: round_double_def)
next
  case False
  from round_double_grid [OF assms False] obtain m e
    where g: "\<bar>y\<bar> = of_int m * 2 powi e" "0 < m" "m \<le> 2 ^ 53" "- 1074 \<le> e"
      "- 1074 < e \<longrightarrow> 2 ^ 52 \<le> m" "\<bar>y\<bar> < 2 ^ 1024"
    by blast
  have "round_pos n d = Some \<bar>y\<bar>" if "quotient_of \<bar>y\<bar> = (n, d)" for n d
    using round_pos_fixed [OF g(2,3,4) _ g(1,6) that] g(5) by blast
  with False show ?thesis
    by (auto simp: round_double_def split: prod.splits)
qed

lemma below_lit_1e_2:
  assumes "round_double x = Fin y"
  shows "(\<bar>y\<bar> < 5764607523034235 / 576460752303423488) = (\<bar>y\<bar> < 1 / 100)"
proof (cases "y = 0")
  case True
  then show ?thesis by simp
next
  case False
  from round_double_grid [OF assms False] obtain m e
    where g: "\<bar>y\<bar> = of_int m * 2 powi e" "0 < m" "m \<le> 2 ^ 53" "- 1074 \<le> e"
      "- 1074 < e \<longrightarrow> 2 ^ 52 \<le> m"
    by blast
  have "False" if lo: "1 / 100 \<le> \<bar>y\<bar>" and hi: "\<bar>y\<bar> < 5764607523034235 / 576460752303423488"
  proof -
    consider "- 58 \<le> e" | "e \<le> - 60" | "e = - 59" by linarith
    then show False
    proof cases
      case 1
      with g(5) have "2 ^ 52 \<le> m" by simp
      then have "(of_int (2 ^ 52) :: rat) \<le> of_int m" by (simp only: of_int_le_iff)
      moreover have "(2 :: rat) powi (- 58) \<le> 2 powi e"
        using 1 by (intro power_int_increasing) simp_all
      ultimately have "(of_int (2 ^ 52) :: rat) * 2 powi (- 58) \<le> of_int m * 2 powi e"
        by (intro mult_mono) simp_all
      with g(1) hi show False by (simp add: power_int_minus)
    next
      case 2
      from g(3) have "(of_int m :: rat) \<le> of_int (2 ^ 53)" by (simp only: of_int_le_iff)
      moreover have "(2 :: rat) powi e \<le> 2 powi (- 60)"
        using 2 by (intro power_int_increasing) simp_all
      ultimately have "of_int m * 2 powi e \<le> (of_int (2 ^ 53) :: rat) * 2 powi (- 60)"
        using g(2) by (intro mult_mono) simp_all
      with g(1) lo show False by (simp add: power_int_minus)
    next
      case 3
      with g(1) have y: "\<bar>y\<bar> = of_int m / 576460752303423488"
        by (simp add: power_int_minus field_simps)
      from hi have "(of_int m :: rat) < of_int 5764607523034235" by (simp add: y)
      then have a: "m < 5764607523034235" by (simp only: of_int_less_iff)
      from lo have "(of_int 576460752303423488 :: rat) \<le> of_int (m * 100)" by (simp add: y)
      then have "576460752303423488 \<le> m * 100" by (simp only: of_int_le_iff)
      with a show False by simp
    qed
  qed
  moreover have "\<bar>y\<bar> < 5764607523034235 / 576460752303423488" if "\<bar>y\<bar> < 1 / 100"
    using that by simp
  ultimately show ?thesis by (meson not_le)
qed

section \<open>Facts about the grader\<close>

lemma round_double_minus: "round_double (- x) = js_neg (round_double x)"
  by (cases "x = 0"; cases "0 < x")
    (auto simp: round_double_def js_neg_def split: prod.splits option.splits)




lemma js_Number_empty: "js_Number [] = Fin 0"
  by (simp add: js_Number_def js_trim_def)

lemma tryParseFloat_empty: "tryParseFloat [] = Some (Fin 0)"
  by (simp add: tryParseFloat_def js_Number_empty isNaN_def)

lemma normalized_empty_iff: "normalized s = [] \<longleftrightarrow> js_trim s = []"
  by (simp add: normalized_def js_toLowerCase_def)

lemma js_Number_range:
  "js_Number s = NaN \<or> js_Number s = PInf \<or> js_Number s = NInf \<or> (\<exists>x. js_Number s = round_double x)"
proof -
  have z: "Fin 0 = round_double 0" by (simp add: round_double_def)
  have u: "parse_unsigned r = NaN \<or> parse_unsigned r = PInf \<or> (\<exists>x. parse_unsigned r = round_double x)" for r
    by (auto simp: parse_unsigned_def Let_def dec_to_double_def split: option.splits)
  have "parse_decimal t = NaN \<or> parse_decimal t = PInf \<or> parse_decimal t = NInf
      \<or> (\<exists>x. parse_decimal t = round_double x)" for t
  proof (cases t)
    case Nil
    then show ?thesis by (simp add: parse_decimal_def)
  next
    case (Cons c r)
    from u [of r] u [of t] round_double_minus [symmetric] show ?thesis
      unfolding parse_decimal_def Cons
      by (auto simp: js_neg_def)
  qed
  then show ?thesis
    using z unfolding js_Number_def Let_def by (auto split: option.splits)
qed

lemma tryParseFloat_fixed:
  assumes "tryParseFloat s = Some (Fin y)"
  shows "round_double y = Fin y"
proof -
  from assms have "js_Number s = Fin y"
    by (simp add: tryParseFloat_def Let_def split: if_splits)
  with js_Number_range [of s] obtain x where "round_double x = Fin y" by auto
  then show ?thesis by (rule round_double_fixed)
qed

lemma js_abs_zero_minus:
  assumes "tryParseFloat s = Some a"
  shows "js_abs (js_sub (Fin 0) a) = js_abs a"
proof (cases a)
  case (Fin y)
  with assms have "round_double y = Fin y" by (simp add: tryParseFloat_fixed)
  then have "round_double (0 - y) = Fin (- y)"
    using round_double_minus [of y] by (simp add: js_neg_def)
  with Fin show ?thesis by (simp add: js_sub_def js_abs_def)
next
  case NaN
  with assms show ?thesis by (simp add: tryParseFloat_def Let_def isNaN_def split: if_splits)
qed (simp_all add: js_sub_def js_abs_def)


lemma lit_1e_2_value: "lit_1e_2 = Fin (5764607523034235 / 576460752303423488)"
  by code_simp


lemma below_threshold:
  assumes "d = NaN \<or> d = PInf \<or> d = NInf \<or> (\<exists>x. d = round_double x)"
  shows "js_lt (js_abs d) lit_1e_2 = (case d of Fin y \<Rightarrow> \<bar>y\<bar> < 1 / 100 | _ \<Rightarrow> False)"
proof (cases d)
  case (Fin y)
  with assms obtain x where "round_double x = Fin y" by auto
  from below_lit_1e_2 [OF this] Fin show ?thesis
    by (simp add: lit_1e_2_value js_lt_def js_abs_def)
qed (simp_all add: lit_1e_2_value js_lt_def js_abs_def)

section \<open>Facts about one run\<close>

text \<open>
  C8. When the user's program raises an error, \<^verbatim>\<open>runCode\<close> reads the captured output
  all the same and throws an error whose message is the captured output when that is
  not empty, and the message of the raised error otherwise.
\<close>

theorem runCode_raised:
  assumes "py src (make_inputProcessor (input_format q) (input t)) s = ((Raised m, captured), s')"
  shows "runCode py src t q s = Some (Inl (if captured \<noteq> [] then captured else m), s')"
  using assms by (simp add: runCode_def withTimeout_def)

theorem runCode_raised_witness:
  "(\<lambda>src r s. ((Raised ''ZeroDivisionError'', if s then ''partial'' else []), s))
      ''print(1/0)'' (make_inputProcessor (input_format \<lparr>qid = ''q'', input_format = None\<rparr>)
         (input \<lparr>input = ''1'', expected = ''2'', hidden = False\<rparr>)) True
     = ((Raised ''ZeroDivisionError'', ''partial''), True)
   \<and> runCode (\<lambda>src r s. ((Raised ''ZeroDivisionError'', if s then ''partial'' else []), s))
       ''print(1/0)'' \<lparr>input = ''1'', expected = ''2'', hidden = False\<rparr>
       \<lparr>qid = ''q'', input_format = None\<rparr> True = Some (Inl ''partial'', True)
   \<and> runCode (\<lambda>src r s. ((Raised ''ZeroDivisionError'', if s then ''partial'' else []), s))
       ''print(1/0)'' \<lparr>input = ''1'', expected = ''2'', hidden = False\<rparr>
       \<lparr>qid = ''q'', input_format = None\<rparr> False = Some (Inl ''ZeroDivisionError'', False)"
  using
    runCode_raised [of "\<lambda>src r s. ((Raised ''ZeroDivisionError'', if s then ''partial'' else []), s)"
      "''print(1/0)''" "\<lparr>qid = ''q'', input_format = None\<rparr>"
      "\<lparr>input = ''1'', expected = ''2'', hidden = False\<rparr>" True "''ZeroDivisionError''"
      "''partial''" True]
    runCode_raised [of "\<lambda>src r s. ((Raised ''ZeroDivisionError'', if s then ''partial'' else []), s)"
      "''print(1/0)''" "\<lparr>qid = ''q'', input_format = None\<rparr>"
      "\<lparr>input = ''1'', expected = ''2'', hidden = False\<rparr>" False "''ZeroDivisionError''"
      "[]" False]
  by simp

section \<open>Facts about a submission\<close>




lemma submit_loop_run_all:
  "run_all py src q ts s = Some (rs, s') \<Longrightarrow>
   submit_loop py src q ts s v =
     Some (foldl (\<lambda>v tr. record_result (fst tr) (snd tr) v) v (zip ts rs), s')"
  by (induction ts arbitrary: s rs v) (auto split: option.splits prod.splits)


lemma record_result_cases:
  "record_result t r v =
     (if test_passed (t, r) then v
      else if hidden t then v\<lparr>allPassed := False, anyHiddenFailed := True\<rparr>
      else v\<lparr>allPassed := False, lines := lines v @ detail (t, r)\<rparr>)"
  by (cases r) (simp_all add: record_result_def test_passed_def detail_def)

lemma foldl_record_result:
  "foldl (\<lambda>v tr. record_result (fst tr) (snd tr) v) v trs =
     \<lparr>allPassed = (allPassed v \<and> list_all test_passed trs),
      lines = lines v @ concat (map detail (filter (\<lambda>tr. \<not> hidden (fst tr) \<and> \<not> test_passed tr) trs)),
      anyHiddenFailed = (anyHiddenFailed v \<or> list_ex (\<lambda>tr. hidden (fst tr) \<and> \<not> test_passed tr) trs)\<rparr>"
proof (induction trs arbitrary: v)
  case Nil
  show ?case by simp
next
  case (Cons tr trs)
  have "foldl (\<lambda>v tr. record_result (fst tr) (snd tr) v) v (tr # trs) =
      foldl (\<lambda>v tr. record_result (fst tr) (snd tr) v) (record_result (fst tr) (snd tr) v) trs"
    by simp
  also note Cons [of "record_result (fst tr) (snd tr) v"]
  finally show ?case
    using record_result_cases [of "fst tr" "snd tr" v] by auto
qed

lemma submit_loop_verdict:
  assumes "run_all py src q ts s = Some (rs, s')"
  shows "submit_loop py src q ts s initial_verdict =
     Some (\<lparr>allPassed = all_pass ts rs,
       lines = concat (map detail (public_failures ts rs)),
       anyHiddenFailed = hidden_failure ts rs\<rparr>, s')"
  using submit_loop_run_all [OF assms, of initial_verdict]
  by (simp add: foldl_record_result initial_verdict_def all_pass_def public_failures_def
      hidden_failure_def)


lemma all_pass_split:
  "all_pass ts rs \<longleftrightarrow> \<not> hidden_failure ts rs \<and> list_all test_passed (public_part ts rs)"
  by (auto simp: all_pass_def hidden_failure_def public_part_def list_all_iff list_ex_iff)

lemma handleSubmit_found:
  assumes "pyodide c = Some s" "\<not> loading c"
    and "find (\<lambda>q. qid q = questionId) allQuestions = Some q"
    and "run_all py (code c) q tests s = Some (rs, s')"
  shows "handleSubmit py allQuestions questionId tests e c =
     Some (if hidden_failure tests rs
        then c\<lparr>pyodide := Some s', shown := hidden_failed_message\<rparr>
      else if all_pass tests rs \<and> signed_in e
        then
          (case setDoc_rejects e of
             Some err \<Rightarrow>
               c\<lparr>pyodide := Some s', shown := ''Error: '' @ err,
                 setDoc_calls := setDoc_calls c @ [solved_call e questionId]\<rparr>
           | None \<Rightarrow>
               c\<lparr>pyodide := Some s',
                 shown := js_join ''\<newline>''
                   (concat (map detail (public_failures tests rs)) @ [[], all_passed_banner]),
                 solvedMap := (solvedMap c)(questionId \<mapsto> True),
                 setDoc_calls := setDoc_calls c @ [solved_call e questionId]\<rparr>)
      else c\<lparr>pyodide := Some s',
             shown := js_join ''\<newline>'' (concat (map detail (public_failures tests rs)))\<rparr>)"
  using assms submit_loop_verdict [OF assms(4)]
  by (simp add: handleSubmit_def split: option.splits)






lemma setDoc_merge_idem: "setDoc_merge k (setDoc_merge k db) = setDoc_merge k db"
  by (auto simp: setDoc_merge_def Let_def fun_eq_iff split: option.splits)







text \<open>
  C4, as the code has it. The store is written only for a signed-in user. When the
  interpreter is ready, the problem id is known and every run settles, \<^verbatim>\<open>handleSubmit\<close>
  returns, having issued one \<^verbatim>\<open>setDoc\<close> call if every test passed and a user with a
  non-empty uid is signed in, and none otherwise. The call addresses that user's
  document, marks the problem id in the \<^verbatim>\<open>solved\<close> map, and sets the field \<open>solved_\<close>
  followed by the problem id to the time stamp; merging it twice is merging it once. If
  the store accepts the write, the text shown is an empty line followed by the banner,
  and the local map marks the problem solved.
\<close>

theorem solved_upsert:
  assumes "pyodide c = Some s" and "\<not> loading c"
    and "find (\<lambda>q. qid q = questionId) allQuestions = Some q"
    and "run_all py (code c) q tests s = Some (rs, s')"
  shows "map_option setDoc_calls (handleSubmit py allQuestions questionId tests e c) =
       Some (if all_pass tests rs \<and> signed_in e then setDoc_calls c @ [solved_call e questionId]
        else setDoc_calls c)
     \<and> (all_pass tests rs \<and> signed_in e \<and> setDoc_rejects e = None \<longrightarrow>
          map_option shown (handleSubmit py allQuestions questionId tests e c) =
            Some (''\<newline>'' @ all_passed_banner)
          \<and> map_option (\<lambda>c'. solvedMap c' questionId)
              (handleSubmit py allQuestions questionId tests e c) = Some (Some True))
     \<and> (all_pass tests rs \<and> \<not> signed_in e \<longrightarrow>
          map_option shown (handleSubmit py allQuestions questionId tests e c) = Some [])
     \<and> (signed_in e \<longrightarrow> user e = Some (users_doc (solved_call e questionId)))
     \<and> solved_key (solved_call e questionId) = questionId
     \<and> stamp_field (solved_call e questionId) = ''solved_'' @ questionId
     \<and> stamp_value (solved_call e questionId) = date_now e
     \<and> (case setDoc_merge (solved_call e questionId) db (users_doc (solved_call e questionId)) of
          None \<Rightarrow> False
        | Some d \<Rightarrow>
            solved d questionId = Some True
            \<and> stamps d (''solved_'' @ questionId) = Some (date_now e)
            \<and> lastSolved d = Some (iso_now e))
     \<and> setDoc_merge (solved_call e questionId) (setDoc_merge (solved_call e questionId) db) =
         setDoc_merge (solved_call e questionId) db"
proof -
  have nofail: "public_failures tests rs = []" if "all_pass tests rs"
    using that by (auto simp: all_pass_def public_failures_def list_all_iff filter_empty_conv)
  have nohid: "\<not> hidden_failure tests rs" if "all_pass tests rs"
    using that by (simp add: all_pass_split)
  have m: "case setDoc_merge (solved_call e questionId) db (users_doc (solved_call e questionId)) of
          None \<Rightarrow> False
        | Some d \<Rightarrow>
            solved d questionId = Some True
            \<and> stamps d (''solved_'' @ questionId) = Some (date_now e)
            \<and> lastSolved d = Some (iso_now e)"
    by (simp add: setDoc_merge_def solved_call_def Let_def)
  have u: "signed_in e \<longrightarrow> user e = Some (users_doc (solved_call e questionId))"
    by (auto simp: signed_in_def solved_call_def split: option.splits)
  have k: "solved_key (solved_call e questionId) = questionId
     \<and> stamp_field (solved_call e questionId) = ''solved_'' @ questionId
     \<and> stamp_value (solved_call e questionId) = date_now e"
    by (simp add: solved_call_def)
  have h: "map_option setDoc_calls (handleSubmit py allQuestions questionId tests e c) =
       Some (if all_pass tests rs \<and> signed_in e then setDoc_calls c @ [solved_call e questionId]
        else setDoc_calls c)
     \<and> (all_pass tests rs \<and> signed_in e \<and> setDoc_rejects e = None \<longrightarrow>
          map_option shown (handleSubmit py allQuestions questionId tests e c) =
            Some (''\<newline>'' @ all_passed_banner)
          \<and> map_option (\<lambda>c'. solvedMap c' questionId)
              (handleSubmit py allQuestions questionId tests e c) = Some (Some True))
     \<and> (all_pass tests rs \<and> \<not> signed_in e \<longrightarrow>
          map_option shown (handleSubmit py allQuestions questionId tests e c) = Some [])"
    using nofail nohid
    by (auto simp: handleSubmit_found [OF assms] split: option.splits)
  from h u k m setDoc_merge_idem [of "solved_call e questionId" db] show ?thesis by blast
qed

theorem solved_upsert_witness:
  "pyodide ex_component = Some 0 \<and> \<not> loading ex_component
   \<and> find (\<lambda>q. qid q = ''easy-1'') [ex_question] = Some ex_question
   \<and> run_all echo (code ex_component) ex_question
        [ex_test ''5'' ''5'' False, ex_test ''6'' ''6'' False] 0 = Some ([Inr ''5'', Inr ''6''], 2)
   \<and> all_pass [ex_test ''5'' ''5'' False, ex_test ''6'' ''6'' False] [Inr ''5'', Inr ''6'']
   \<and> signed_in (ex_env (Some ''u1'')) \<and> setDoc_rejects (ex_env (Some ''u1'')) = None
   \<and> map_option setDoc_calls (handleSubmit echo [ex_question] ''easy-1''
        [ex_test ''5'' ''5'' False, ex_test ''6'' ''6'' False] (ex_env (Some ''u1'')) ex_component) =
       Some [\<lparr>users_doc = ''u1'', solved_key = ''easy-1'',
         lastSolved_value = ''2023-11-14T22:13:20.000Z'',
         stamp_field = ''solved_easy-1'', stamp_value = 1700000000000\<rparr>]
   \<and> map_option shown (handleSubmit echo [ex_question] ''easy-1''
        [ex_test ''5'' ''5'' False, ex_test ''6'' ''6'' False] (ex_env (Some ''u1'')) ex_component) =
       Some ''\<newline>[U+1F389] All tests passed!''
   \<and> map_option (\<lambda>c'. solvedMap c' ''easy-1'') (handleSubmit echo [ex_question] ''easy-1''
        [ex_test ''5'' ''5'' False, ex_test ''6'' ''6'' False] (ex_env (Some ''u1'')) ex_component) =
       Some (Some True)"
proof -
  have h1: "pyodide ex_component = Some 0" and h2: "\<not> loading ex_component"
    by (simp_all add: ex_component_def)
  have f: "find (\<lambda>q. qid q = ''easy-1'') [ex_question] = Some ex_question"
    by (simp add: ex_question_def)
  have r: "run_all echo (code ex_component) ex_question
        [ex_test ''5'' ''5'' False, ex_test ''6'' ''6'' False] 0 = Some ([Inr ''5'', Inr ''6''], 2)"
    by code_simp
  have ap: "all_pass [ex_test ''5'' ''5'' False, ex_test ''6'' ''6'' False] [Inr ''5'', Inr ''6'']"
    by code_simp
  have si: "signed_in (ex_env (Some ''u1''))" "setDoc_rejects (ex_env (Some ''u1'')) = None"
    by (simp_all add: signed_in_def ex_env_def)
  from solved_upsert [OF h1 h2 f r, of "ex_env (Some ''u1'')"] ap si
  have "map_option setDoc_calls (handleSubmit echo [ex_question] ''easy-1''
        [ex_test ''5'' ''5'' False, ex_test ''6'' ''6'' False] (ex_env (Some ''u1'')) ex_component) =
       Some [\<lparr>users_doc = ''u1'', solved_key = ''easy-1'',
         lastSolved_value = ''2023-11-14T22:13:20.000Z'',
         stamp_field = ''solved_easy-1'', stamp_value = 1700000000000\<rparr>]
   \<and> map_option shown (handleSubmit echo [ex_question] ''easy-1''
        [ex_test ''5'' ''5'' False, ex_test ''6'' ''6'' False] (ex_env (Some ''u1'')) ex_component) =
       Some ''\<newline>[U+1F389] All tests passed!''
   \<and> map_option (\<lambda>c'. solvedMap c' ''easy-1'') (handleSubmit echo [ex_question] ''easy-1''
        [ex_test ''5'' ''5'' False, ex_test ''6'' ''6'' False] (ex_env (Some ''u1'')) ex_component) =
       Some (Some True)"
    by (simp add: ex_component_def solved_call_def ex_env_def all_passed_banner_def)
  with h1 h2 f r ap si show ?thesis by simp
qed

text \<open>
  C4, as the claim has it, fails when nobody is signed in: both tests pass, no call
  reaches the store and the text shown is empty.
\<close>

theorem solved_upsert_counterexample:
  "(case run_all echo (code ex_component) ex_question
        [ex_test ''5'' ''5'' False, ex_test ''6'' ''6'' False] 0 of
      None \<Rightarrow> False
    | Some (rs, s') \<Rightarrow> all_pass [ex_test ''5'' ''5'' False, ex_test ''6'' ''6'' False] rs)
   \<and> map_option setDoc_calls (handleSubmit echo [ex_question] ''easy-1''
        [ex_test ''5'' ''5'' False, ex_test ''6'' ''6'' False] (ex_env None) ex_component) =
       Some []
   \<and> map_option shown (handleSubmit echo [ex_question] ''easy-1''
        [ex_test ''5'' ''5'' False, ex_test ''6'' ''6'' False] (ex_env None) ex_component) =
       Some []"
  by code_simp

section \<open>Normalization and the empty expected output\<close>

lemma is_space_code: "is_space c \<longleftrightarrow> (of_char c :: nat) \<in> {9, 10, 11, 12, 13, 32, 160}"
proof -
  have *: "(of_char c :: nat) = of_char d \<Longrightarrow> c = d" for d
    by simp
  show ?thesis
    using * [of "CHR 0x09"] * [of "CHR 0x0A"] * [of "CHR 0x0B"] * [of "CHR 0x0C"]
      * [of "CHR 0x0D"] * [of "CHR 0x20"] * [of "CHR 0xA0"]
    by (auto simp: is_space_def)
qed

lemma is_space_lower_char: "is_space (lower_char c) = is_space c"
proof -
  have "(of_char c :: nat) < 256" by simp
  then show ?thesis
    by (auto simp: is_space_code lower_char_def Let_def)
qed

lemma dropWhile_space_lower:
  "dropWhile is_space (js_toLowerCase s) = js_toLowerCase (dropWhile is_space s)"
  by (simp add: js_toLowerCase_def dropWhile_map comp_def is_space_lower_char)

lemma js_trim_lower: "js_trim (js_toLowerCase s) = js_toLowerCase (js_trim s)"
  by (simp add: js_trim_def js_toLowerCase_def rev_map dropWhile_map comp_def
      is_space_lower_char)

lemma dropWhile_rev_dropWhile:
  "dropWhile P (rev (dropWhile P (rev (dropWhile P s)))) = rev (dropWhile P (rev (dropWhile P s)))"
proof (cases "dropWhile P (rev (dropWhile P s))")
  case Nil
  then show ?thesis by (simp only: rev.simps dropWhile.simps)
next
  case (Cons a as)
  define t where "t = dropWhile P s"
  have ne: "t \<noteq> []"
  proof
    assume "t = []"
    then have "dropWhile P s = []" by (simp only: t_def)
    then have "dropWhile P (rev (dropWhile P s)) = []"
      by (simp only: rev.simps dropWhile.simps)
    with Cons show False by simp
  qed
  then have "\<not> P (hd t)" unfolding t_def by (rule hd_dropWhile)
  moreover
  have "rev (dropWhile P (rev t)) \<noteq> []" using Cons by (simp add: t_def)
  moreover have "\<exists>zs. t = rev (dropWhile P (rev t)) @ zs"
    by (metis takeWhile_dropWhile_id rev_append rev_rev_ident)
  ultimately have "\<not> P (hd (rev (dropWhile P (rev t))))"
    by (metis hd_append2)
  then show ?thesis
    unfolding t_def [symmetric] using \<open>rev (dropWhile P (rev t)) \<noteq> []\<close>
    by (cases "rev (dropWhile P (rev t))") simp_all
qed

lemma js_trim_idem: "js_trim (js_trim s) = js_trim s"
  by (simp add: js_trim_def dropWhile_rev_dropWhile dropWhile_idem)

lemma lower_char_idem: "lower_char (lower_char c) = lower_char c"
proof -
  have "(of_char c :: nat) < 256" by simp
  then show ?thesis
    by (auto simp: lower_char_def Let_def)
qed

lemma js_toLowerCase_idem: "js_toLowerCase (js_toLowerCase s) = js_toLowerCase s"
  by (simp add: js_toLowerCase_def lower_char_idem)

lemma normalized_idem: "normalized (normalized s) = normalized s"
  by (simp add: normalized_def js_trim_lower js_trim_idem js_toLowerCase_idem)

lemma grade_normalized: "grade a x = grade (normalized a) (normalized x)"
  by (simp add: grade_def normalized_idem)

lemma legacy_passed_eq: "legacy_passed a x = (normalized a = js_toLowerCase x)"
  by (simp add: legacy_passed_def normalized_def)

text \<open>
  C9, as the code has it. In \<^verbatim>\<open>CodeRunner.tsx\<close> the verdict of \<^verbatim>\<open>handleRun\<close> and of
  \<^verbatim>\<open>handleSubmit\<close> depends on the two outputs only through their trimmed, lower-cased
  forms. In the second source file both sides are lower-cased and the actual output is
  trimmed, but the expected output is compared as it stands: the verdict depends on the
  actual output through its trimmed, lower-cased form and on the expected output
  through its lower-cased form.
\<close>

theorem comparison_normalization:
  "(normalized a = normalized a' \<and> normalized x = normalized x' \<longrightarrow> grade a x = grade a' x')
   \<and> grade a x = grade (normalized a) (normalized x)
   \<and> legacy_passed a x = (js_toLowerCase (js_trim a) = js_toLowerCase x)
   \<and> (normalized a = normalized a' \<and> js_toLowerCase x = js_toLowerCase x' \<longrightarrow>
        legacy_passed a x = legacy_passed a' x')"
  using grade_normalized [of a x] grade_normalized [of a' x']
  by (auto simp: legacy_passed_eq normalized_def)

theorem comparison_normalization_witness:
  "normalized '' True '' = normalized ''tRUE'' \<and> normalized ''TRUE\<newline>'' = normalized ''true''
   \<and> grade '' True '' ''TRUE\<newline>'' = grade ''tRUE'' ''true''
   \<and> js_toLowerCase ''TRUE'' = js_toLowerCase ''true''
   \<and> legacy_passed '' True '' ''TRUE'' = legacy_passed ''tRUE'' ''true''"
proof -
  have n1: "normalized '' True '' = normalized ''tRUE''" by code_simp
  have n2: "normalized ''TRUE\<newline>'' = normalized ''true''" by code_simp
  have n3: "js_toLowerCase ''TRUE'' = js_toLowerCase ''true''" by code_simp
  from comparison_normalization [of "'' True ''" "''tRUE''" "''TRUE\<newline>''" "''true''"] n1 n2
  have g: "grade '' True '' ''TRUE\<newline>'' = grade ''tRUE'' ''true''" by blast
  from comparison_normalization [of "'' True ''" "''tRUE''" "''TRUE''" "''true''"] n1 n3
  have l: "legacy_passed '' True '' ''TRUE'' = legacy_passed ''tRUE'' ''true''" by blast
  from n1 n2 n3 g l show ?thesis by blast
qed

text \<open>
  C9, as the claim has it, fails for the second source file: the expected outputs \<open>5\<close>
  and \<open>5\<close> followed by a space have the same trimmed, lower-cased form, yet against the
  actual output \<open>5\<close> the first passes and the second fails there (both pass in
  \<^verbatim>\<open>CodeRunner.tsx\<close>).
\<close>

theorem legacy_expected_not_trimmed:
  "normalized ''5 '' = normalized ''5'' \<and> grade ''5'' ''5 '' \<and> grade ''5'' ''5''
   \<and> legacy_passed ''5'' ''5'' \<and> \<not> legacy_passed ''5'' ''5 ''"
  by code_simp

text \<open>
  C10. The numeric conversion takes the empty string to \<open>0\<close>, and a run that ends with
  nothing but white space captured returns the text \<open>[no output]\<close>. So for a test whose
  expected output trims to the empty string, an actual output passes exactly when it
  converts to a finite number of absolute value below one hundredth; it never passes
  through the comparison of strings, and a program that printed nothing fails.
\<close>

theorem empty_expected_output:
  assumes "js_trim (expected t) = []"
    and "py src (make_inputProcessor (input_format q) (input t)) s = ((Completed, captured), s')"
    and "js_trim captured = []"
  shows "js_Number [] = Fin 0
     \<and> tryParseFloat (normalized (expected t)) = Some (Fin 0)
     \<and> runCode py src t q s = Some (Inr ''[no output]'', s')
     \<and> (case runCode py src t q s of None \<Rightarrow> False | Some (r, s'') \<Rightarrow> \<not> test_passed (t, r))
     \<and> grade actual (expected t) =
         (case tryParseFloat (normalized actual) of
            Some (Fin y) \<Rightarrow> \<bar>y\<bar> < 1 / 100
          | _ \<Rightarrow> False)"
proof -
  from assms(1) have e: "normalized (expected t) = []" by (simp add: normalized_empty_iff)
  have g: "grade actual (expected t) =
         (case tryParseFloat (normalized actual) of
            Some (Fin y) \<Rightarrow> \<bar>y\<bar> < 1 / 100
          | _ \<Rightarrow> False)" for actual
  proof (cases "tryParseFloat (normalized actual)")
    case None
    then have "normalized actual \<noteq> []" using tryParseFloat_empty by auto
    with None e show ?thesis by (simp add: grade_def Let_def tryParseFloat_empty)
  next
    case (Some a)
    then have r: "a = NaN \<or> a = PInf \<or> a = NInf \<or> (\<exists>x. a = round_double x)"
      using js_Number_range [of "normalized actual"]
      by (auto simp: tryParseFloat_def Let_def split: if_splits)
    from Some e have "grade actual (expected t) = js_lt (js_abs (js_sub (Fin 0) a)) lit_1e_2"
      by (simp add: grade_def Let_def tryParseFloat_empty)
    also have "\<dots> = js_lt (js_abs a) lit_1e_2"
      by (simp only: js_abs_zero_minus [OF Some])
    also have "\<dots> = (case a of Fin y \<Rightarrow> \<bar>y\<bar> < 1 / 100 | _ \<Rightarrow> False)"
      by (rule below_threshold [OF r])
    finally show ?thesis using Some by (simp split: jsnum.splits)
  qed
  have r: "runCode py src t q s = Some (Inr ''[no output]'', s')"
    using assms(2,3) by (simp add: runCode_def withTimeout_def no_output_def)
  have "tryParseFloat (normalized ''[no output]'') = None" by code_simp
  with g [of "''[no output]''"] r
  have "case runCode py src t q s of None \<Rightarrow> False | Some (r, s'') \<Rightarrow> \<not> test_passed (t, r)"
    by (simp add: test_passed_def)
  with e g r show ?thesis by (simp add: js_Number_empty tryParseFloat_empty)
qed

theorem empty_expected_output_witness:
  "js_trim (expected (ex_test ''5'' '' '' False)) = []
   \<and> blank ''pass''
        (make_inputProcessor (input_format ex_question) (input (ex_test ''5'' '' '' False)))
        0 = ((Completed, ''\<newline>''), 1)
   \<and> js_trim ''\<newline>'' = []
   \<and> runCode blank ''pass'' (ex_test ''5'' '' '' False) ex_question 0 =
       Some (Inr ''[no output]'', 1)
   \<and> (case runCode blank ''pass'' (ex_test ''5'' '' '' False) ex_question 0 of
         None \<Rightarrow> False
       | Some (r, s'') \<Rightarrow> \<not> test_passed (ex_test ''5'' '' '' False, r))
   \<and> grade ''0.009'' (expected (ex_test ''5'' '' '' False))
   \<and> \<not> grade ''0.01'' (expected (ex_test ''5'' '' '' False))
   \<and> \<not> grade ''none'' (expected (ex_test ''5'' '' '' False))"
proof -
  have h1: "js_trim (expected (ex_test ''5'' '' '' False)) = []" by code_simp
  have h2: "blank ''pass''
        (make_inputProcessor (input_format ex_question) (input (ex_test ''5'' '' '' False)))
        0 = ((Completed, ''\<newline>''), 1)"
    by (simp add: blank_def)
  have h3: "js_trim ''\<newline>'' = []" by code_simp
  note th = empty_expected_output [where py = blank and src = "''pass''" and s = 0 and s' = 1
      and q = ex_question and captured = "''\<newline>''", OF h1 h2 h3]
  have e1: "(case tryParseFloat (normalized ''0.009'') of
            Some (Fin y) \<Rightarrow> \<bar>y\<bar> < 1 / 100 | _ \<Rightarrow> False)"
    by code_simp
  have e2: "\<not> (case tryParseFloat (normalized ''0.01'') of
            Some (Fin y) \<Rightarrow> \<bar>y\<bar> < 1 / 100 | _ \<Rightarrow> False)"
    by code_simp
  have e3: "\<not> (case tryParseFloat (normalized ''none'') of
            Some (Fin y) \<Rightarrow> \<bar>y\<bar> < 1 / 100 | _ \<Rightarrow> False)"
    by code_simp
  from th [of "''0.009''"] e1 have g1: "grade ''0.009'' (expected (ex_test ''5'' '' '' False))"
    by blast
  from th [of "''0.01''"] e2 have g2: "\<not> grade ''0.01'' (expected (ex_test ''5'' '' '' False))"
    by blast
  from th [of "''none''"] e3 have g3: "\<not> grade ''none'' (expected (ex_test ''5'' '' '' False))"
    by blast
  from th [of "[]"] h1 h2 h3 g1 g2 g3 show ?thesis by blast
qed

section \<open>The rule of the grader\<close>











end
